theory Spec2Isabelle
  imports Complex_Main "HOL-Library.Multiset"
begin

section \<open>Matrix entries\<close>

text \<open>
  The entries of a block are numpy float64 values. The model keeps the special values of
  IEEE-754 arithmetic (the two infinities and NaN), which division by zero and the square
  root of a negative number produce, and takes the finite values as real numbers: rounding,
  overflow of finite results and the sign of zero are not modelled.
\<close>

datatype fl = Fin real | PInf | NInf | NaN

fun fl_neg :: "fl \<Rightarrow> fl" where
  "fl_neg (Fin a) = Fin (- a)"
| "fl_neg PInf = NInf"
| "fl_neg NInf = PInf"
| "fl_neg NaN = NaN"

fun fl_add :: "fl \<Rightarrow> fl \<Rightarrow> fl" where
  "fl_add NaN _ = NaN"
| "fl_add _ NaN = NaN"
| "fl_add (Fin a) (Fin b) = Fin (a + b)"
| "fl_add PInf NInf = NaN"
| "fl_add NInf PInf = NaN"
| "fl_add PInf _ = PInf"
| "fl_add _ PInf = PInf"
| "fl_add NInf _ = NInf"
| "fl_add _ NInf = NInf"

definition fl_sub :: "fl \<Rightarrow> fl \<Rightarrow> fl" where
  "fl_sub a b = fl_add a (fl_neg b)"

text \<open>\<^verbatim>\<open>v ** 2\<close> on one entry.\<close>

fun fl_sq :: "fl \<Rightarrow> fl" where
  "fl_sq (Fin a) = Fin (a * a)"
| "fl_sq PInf = PInf"
| "fl_sq NInf = PInf"
| "fl_sq NaN = NaN"

text \<open>
  Division never raises in numpy: a finite nonzero value divided by zero is an infinity
  of its sign, zero divided by zero is NaN.
\<close>

fun fl_div :: "fl \<Rightarrow> fl \<Rightarrow> fl" where
  "fl_div NaN _ = NaN"
| "fl_div _ NaN = NaN"
| "fl_div (Fin a) (Fin b) =
     (if b = 0 then (if a = 0 then NaN else if 0 < a then PInf else NInf) else Fin (a / b))"
| "fl_div (Fin a) PInf = Fin 0"
| "fl_div (Fin a) NInf = Fin 0"
| "fl_div PInf (Fin b) = (if 0 \<le> b then PInf else NInf)"
| "fl_div NInf (Fin b) = (if 0 \<le> b then NInf else PInf)"
| "fl_div PInf _ = NaN"
| "fl_div NInf _ = NaN"

fun fl_sqrt :: "fl \<Rightarrow> fl" where
  "fl_sqrt (Fin a) = (if a < 0 then NaN else Fin (sqrt a))"
| "fl_sqrt PInf = PInf"
| "fl_sqrt NInf = NaN"
| "fl_sqrt NaN = NaN"

text \<open>\<^verbatim>\<open>np.mean\<close> of a one-dimensional array: the sum divided by the length
  (NaN for the empty array).\<close>

definition fl_mean :: "fl list \<Rightarrow> fl" where
  "fl_mean xs = fl_div (foldl fl_add (Fin 0) xs) (Fin (real (length xs)))"


section \<open>Errors, matrices and blocks\<close>

datatype error =
    Exception string
  | IndexError
  | ValueError
  | ShapeMismatchError
  | UnsupportedRepresentationError

text \<open>A matrix is the list of its rows. A matrix without rows has no columns here.\<close>

type_synonym matrix = "fl list list"

definition nrows :: "matrix \<Rightarrow> nat" where
  "nrows m = length m"

definition ncols :: "matrix \<Rightarrow> nat" where
  "ncols m = (case m of [] \<Rightarrow> 0 | r # _ \<Rightarrow> length r)"

definition rect :: "matrix \<Rightarrow> bool" where
  "rect m = list_all (\<lambda>r. length r = ncols m) m"

text \<open>
  A block handle is a dense \<^verbatim>\<open>np.ndarray\<close>, a sparse \<^verbatim>\<open>csr_matrix\<close>, or the
  placeholder \<^verbatim>\<open>object()\<close> that \<^verbatim>\<open>transform\<close> puts into the output list
  before the task fills it.
\<close>

datatype block = Ndarray matrix | Csr matrix | Object

fun issparse :: "block \<Rightarrow> bool" where
  "issparse (Csr _) = True"
| "issparse _ = False"

fun values_of :: "block \<Rightarrow> matrix" where
  "values_of (Ndarray m) = m"
| "values_of (Csr m) = m"
| "values_of Object = []"

fun same_kind :: "block \<Rightarrow> block \<Rightarrow> bool" where
  "same_kind (Ndarray _) (Ndarray _) = True"
| "same_kind (Csr _) (Csr _) = True"
| "same_kind _ _ = False"

text \<open>Running a list of fallible computations stops at the first error.\<close>

fun sequence :: "(error + 'a) list \<Rightarrow> error + 'a list" where
  "sequence [] = Inr []"
| "sequence (r # rs) =
     (case r of Inl e \<Rightarrow> Inl e
      | Inr v \<Rightarrow> (case sequence rs of Inl e \<Rightarrow> Inl e | Inr vs \<Rightarrow> Inr (v # vs)))"

section \<open>The ds-array\<close>

text \<open>
  The class \<^verbatim>\<open>Array\<close> of \<^verbatim>\<open>dislib.data.array\<close> is constructed as
  \<^verbatim>\<open>Array(blocks, blocks_shape, shape, sparse)\<close>. Its \<^verbatim>\<open>_blocks\<close> is a list of
  block-rows, each a list of blocks: \<^verbatim>\<open>fit\<close> builds \<^verbatim>\<open>var_blocks = [[]]\<close> and appends
  to \<^verbatim>\<open>var_blocks[0]\<close>, \<^verbatim>\<open>transform\<close> appends one list of blocks per row-band, and both
  tasks declare their block parameters as collections of depth 2.
\<close>

record array =
  blocks :: "block list list"
  blocks_shape :: "nat \<times> nat"
  shape :: "nat \<times> nat"
  sparse :: bool

definition hstack :: "matrix list \<Rightarrow> error + matrix" where
  "hstack ms =
     (case ms of [] \<Rightarrow> Inl ShapeMismatchError
      | m # rest \<Rightarrow>
          if list_all (\<lambda>a. nrows a = nrows m) rest
          then Inr (foldl (\<lambda>acc a. map2 (@) acc a) m rest)
          else Inl ShapeMismatchError)"

definition vstack :: "matrix list \<Rightarrow> error + matrix" where
  "vstack ms =
     (case ms of [] \<Rightarrow> Inl ShapeMismatchError
      | m # rest \<Rightarrow>
          if list_all (\<lambda>a. ncols a = ncols m) rest
          then Inr (concat ms)
          else Inl ShapeMismatchError)"

text \<open>
  Modelled from the spec: \<^verbatim>\<open>Array._merge_blocks\<close> is not among the source files.
  It assembles a grid of block handles into one concrete matrix, the blocks of a block-row
  side by side and the block-rows below each other, keeping the sparse or dense
  representation of the blocks; it fails with a ShapeMismatchError when row or column
  counts do not fit and with an UnsupportedRepresentationError on a grid that mixes
  representations (a placeholder is no representation). A grid without a block has no
  shape and is a ShapeMismatchError here.
\<close>

definition merge_blocks :: "block list list \<Rightarrow> error + block" where
  "merge_blocks grid =
     (case grid of [] \<Rightarrow> Inl ShapeMismatchError
      | [] # _ \<Rightarrow> Inl ShapeMismatchError
      | (b0 # _) # _ \<Rightarrow>
          if list_all (list_all (same_kind b0)) grid
          then (case sequence (map (\<lambda>row. hstack (map values_of row)) grid) of
                  Inl e \<Rightarrow> Inl e
                | Inr bands \<Rightarrow>
                    (case vstack bands of
                       Inl e \<Rightarrow> Inl e
                     | Inr m \<Rightarrow> Inr (if issparse b0 then Csr m else Ndarray m)))
          else Inl UnsupportedRepresentationError)"

definition n_col_blocks :: "array \<Rightarrow> nat" where
  "n_col_blocks x = (case blocks x of [] \<Rightarrow> 0 | r # _ \<Rightarrow> length r)"

text \<open>
  Modelled from the spec: \<^verbatim>\<open>Array._iterator\<close> is not among the source files. The source
  reads only \<^verbatim>\<open>_blocks\<close> of each band it yields, so the model returns these grids.
  Along axis 0 it yields the row-bands (all column-blocks sharing one row range), each as
  a grid of one block-row; along axis 1 it yields the column-bands, each as a grid of one
  block per block-row. The grid \<^verbatim>\<open>fit\<close> assembles from one result per band of axis 1
  is a single block-row with the block layout and the shape of the mean, which fixes the
  bands of axis 1 as the column-bands.
\<close>

definition iterator_blocks :: "nat \<Rightarrow> array \<Rightarrow> block list list list" where
  "iterator_blocks axis x =
     (if axis = 0 then map (\<lambda>row. [row]) (blocks x)
      else map (\<lambda>j. map (\<lambda>row. [row ! j]) (blocks x)) [0..<n_col_blocks x])"

section \<open>numpy operations on whole matrices\<close>

text \<open>
  Binary operations broadcast as numpy does on two dimensions: equal lengths go pointwise,
  a length of one is repeated, anything else is a ValueError.
\<close>

definition bcast :: "('a \<Rightarrow> 'b \<Rightarrow> error + 'c) \<Rightarrow> 'a list \<Rightarrow> 'b list \<Rightarrow> error + 'c list" where
  "bcast f xs ys =
     (if length xs = length ys then sequence (map2 f xs ys)
      else if length ys = 1 then sequence (map (\<lambda>x. f x (hd ys)) xs)
      else if length xs = 1 then sequence (map (\<lambda>y. f (hd xs) y) ys)
      else Inl ValueError)"

definition elementwise :: "(fl \<Rightarrow> fl \<Rightarrow> fl) \<Rightarrow> matrix \<Rightarrow> matrix \<Rightarrow> error + matrix" where
  "elementwise f a b = bcast (bcast (\<lambda>u v. Inr (f u v))) a b"

definition column :: "matrix \<Rightarrow> nat \<Rightarrow> fl list" where
  "column m j = map (\<lambda>r. r ! j) m"

text \<open>\<^verbatim>\<open>np.mean(m, axis=0)\<close>: one mean per column.\<close>

definition col_means :: "matrix \<Rightarrow> fl list" where
  "col_means m = map (\<lambda>j. fl_mean (column m j)) [0..<ncols m]"

text \<open>\<^verbatim>\<open>m[:, j:k]\<close>: the columns from \<open>j\<close> up to, not including, \<open>k\<close>; a slice beyond
  the last column is cut short.\<close>

definition col_slice :: "matrix \<Rightarrow> nat \<Rightarrow> nat \<Rightarrow> matrix" where
  "col_slice m j k = map (\<lambda>r. take (k - j) (drop j r)) m"

text \<open>\<^verbatim>\<open>range(0, stop, step)\<close> for a positive step.\<close>

definition py_range :: "nat \<Rightarrow> nat \<Rightarrow> nat list" where
  "py_range stop step = map (\<lambda>i. i * step) [0..<(stop + step - 1) div step]"

text \<open>
  Modelled from the spec: \<^verbatim>\<open>ds.apply_along_axis\<close> is not among the source files.
  \<^verbatim>\<open>ds.apply_along_axis(np.mean, 0, x)\<close> is the reduction kernel: it produces the dense
  \<open>(1, n_features)\<close> store of column-wise means whose column blocks match those of \<open>x\<close>,
  one block per column-band.
\<close>

definition apply_along_axis_mean :: "array \<Rightarrow> error + array" where
  "apply_along_axis_mean x =
     (case sequence (map (\<lambda>band. case merge_blocks band of
                                      Inl e \<Rightarrow> Inl e
                                    | Inr m \<Rightarrow> Inr (Ndarray [col_means (values_of m)]))
                         (iterator_blocks 1 x)) of
        Inl e \<Rightarrow> Inl e
      | Inr ms \<Rightarrow> Inr \<lparr>blocks = [ms], blocks_shape = (1, snd (blocks_shape x)),
                       shape = (1, snd (shape x)), sparse = False\<rparr>)"

section \<open>The tasks\<close>

text \<open>
  \<^verbatim>\<open>_compute_var(blocks, m_blocks)\<close>. The one-dimensional result of
  \<^verbatim>\<open>np.mean(..., axis=0)\<close> is kept as a matrix of one row, which is what merging it
  as a block of the variance store makes of it.
\<close>

definition compute_var :: "block list list \<Rightarrow> block list list \<Rightarrow> error + block" where
  "compute_var blks m_blocks =
     (case merge_blocks blks of
        Inl e \<Rightarrow> Inl e
      | Inr x \<Rightarrow>
          (case merge_blocks m_blocks of
             Inl e \<Rightarrow> Inl e
           | Inr mean \<Rightarrow>
               (case elementwise fl_sub (values_of x) (values_of mean) of
                  Inl e \<Rightarrow> Inl e
                | Inr d \<Rightarrow> Inr (Ndarray [col_means (map (map fl_sq) d)]))))"

text \<open>
  The loop of \<^verbatim>\<open>_transform\<close>: \<^verbatim>\<open>out_blocks[i] = constructor_func(scaled_x[:, j: j + bm])\<close>
  for the pairs \<open>(i, j)\<close> of the enumeration. Assigning beyond the end of a Python list
  raises IndexError.
\<close>

fun assign_blocks ::
  "(matrix \<Rightarrow> block) \<Rightarrow> matrix \<Rightarrow> nat \<Rightarrow> (nat \<times> nat) list \<Rightarrow> block list \<Rightarrow> error + block list"
where
  "assign_blocks constructor_func scaled_x bm [] out_blocks = Inr out_blocks"
| "assign_blocks constructor_func scaled_x bm ((i, j) # ps) out_blocks =
     (if i < length out_blocks
      then assign_blocks constructor_func scaled_x bm ps
             (out_blocks[i := constructor_func (col_slice scaled_x j (j + bm))])
      else Inl IndexError)"

text \<open>\<^verbatim>\<open>_transform(blocks, m_blocks, v_blocks, out_blocks)\<close>; the result is the
  updated \<^verbatim>\<open>out_blocks\<close>.\<close>

definition transform_task ::
  "block list list \<Rightarrow> block list list \<Rightarrow> block list list \<Rightarrow> block list \<Rightarrow> error + block list"
where
  "transform_task blks m_blocks v_blocks out_blocks =
     (case merge_blocks blks of
        Inl e \<Rightarrow> Inl e
      | Inr x \<Rightarrow>
          (case merge_blocks m_blocks of
             Inl e \<Rightarrow> Inl e
           | Inr mean \<Rightarrow>
               (case merge_blocks v_blocks of
                  Inl e \<Rightarrow> Inl e
                | Inr var \<Rightarrow>
                    (case elementwise fl_sub (values_of x) (values_of mean) of
                       Inl e \<Rightarrow> Inl e
                     | Inr d \<Rightarrow>
                         (case elementwise fl_div d (map (map fl_sqrt) (values_of var)) of
                            Inl e \<Rightarrow> Inl e
                          | Inr scaled_x \<Rightarrow>
                              (let bm = length blks;
                                   constructor_func = (if \<not> issparse x then Ndarray else Csr)
                               in if bm = 0 then Inl ValueError
                                  else assign_blocks constructor_func scaled_x bm
                                         (enumerate 0 (py_range (ncols (values_of x)) bm))
                                         out_blocks))))))"

section \<open>StandardScaler\<close>

record scaler =
  mean_attr :: "array option"
  var_attr :: "array option"

definition init :: scaler where
  "init = \<lparr>mean_attr = None, var_attr = None\<rparr>"

text \<open>
  \<^verbatim>\<open>fit\<close> returns the scaler together with the error that interrupted it, if any:
  \<^verbatim>\<open>self.mean_\<close> is assigned before the variance tasks run.
\<close>

definition var_tasks :: "array \<Rightarrow> array \<Rightarrow> (error + block) list" where
  "var_tasks x m =
     map (\<lambda>(row, m_row). compute_var row m_row)
         (zip (iterator_blocks 1 x) (iterator_blocks 1 m))"

definition fit :: "scaler \<Rightarrow> array \<Rightarrow> scaler \<times> error option" where
  "fit s x =
     (case apply_along_axis_mean x of
        Inl e \<Rightarrow> (s, Some e)
      | Inr m \<Rightarrow>
          (case sequence (var_tasks x m) of
             Inl e \<Rightarrow> (s\<lparr>mean_attr := Some m\<rparr>, Some e)
           | Inr vs \<Rightarrow>
               (s\<lparr>mean_attr := Some m,
                   var_attr := Some \<lparr>blocks = [vs], blocks_shape = blocks_shape m,
                                     shape = shape m, sparse = False\<rparr>\<rparr>, None)))"

definition transform :: "scaler \<Rightarrow> array \<Rightarrow> error + array" where
  "transform s x =
     (case mean_attr s of
        None \<Rightarrow> Inl (Exception ''Model has not been initialized.'')
      | Some m \<Rightarrow>
          (case var_attr s of
             None \<Rightarrow> Inl (Exception ''Model has not been initialized.'')
           | Some v \<Rightarrow>
               (let n_blocks = snd (blocks_shape x) in
                case sequence (map (\<lambda>row. transform_task row (blocks m) (blocks v)
                                             (replicate n_blocks Object))
                                   (iterator_blocks 0 x)) of
                  Inl e \<Rightarrow> Inl e
                | Inr bs \<Rightarrow> Inr \<lparr>blocks = bs, blocks_shape = blocks_shape x,
                                 shape = shape x, sparse = sparse x\<rparr>)))"

definition fit_transform :: "scaler \<Rightarrow> array \<Rightarrow> scaler \<times> (error + array)" where
  "fit_transform s x =
     (case fit s x of
        (s', Some e) \<Rightarrow> (s', Inl e)
      | (s', None) \<Rightarrow> (s', transform s' x))"

section \<open>Derived notions\<close>

text \<open>The two-call sequence of the specification: \<^verbatim>\<open>fit(x)\<close>, then
  \<^verbatim>\<open>transform(x)\<close> on the scaler that \<^verbatim>\<open>fit\<close> returned; an error in \<^verbatim>\<open>fit\<close>
  ends the sequence.\<close>

definition fit_then_transform :: "scaler \<Rightarrow> array \<Rightarrow> scaler \<times> (error + array)" where
  "fit_then_transform s x =
     (let r = fit s x in
      if snd r = None then (fst r, transform (fst r) x) else (fst r, Inl (the (snd r))))"

text \<open>The number of calls of \<^verbatim>\<open>_compute_var\<close> that \<^verbatim>\<open>fit\<close> makes on \<open>x\<close>: one per
  pair of the \<^verbatim>\<open>zip\<close>.\<close>

definition n_var_tasks :: "array \<Rightarrow> nat" where
  "n_var_tasks x = (case apply_along_axis_mean x of Inl _ \<Rightarrow> 0 | Inr m \<Rightarrow> length (var_tasks x m))"

text \<open>
  The variance in the words of the specification, \<^verbatim>\<open>mean((X - mean)^2, axis=0)\<close> with
  \<open>mean\<close> the column-wise mean of \<open>X\<close>: for each column of the matrix, the mean over its
  entries of the squared distance to the mean of the column.
\<close>

definition variance_row :: "matrix \<Rightarrow> fl list" where
  "variance_row X =
     map (\<lambda>c. fl_mean (map (\<lambda>v. fl_sq (fl_sub v (fl_mean (column X c)))) (column X c)))
         [0..<ncols X]"

text \<open>
  A store whose grid is rectangular, every block-row holding one block per column-band,
  and whose blocks are rectangular matrices.
\<close>

definition well_formed :: "array \<Rightarrow> bool" where
  "well_formed x =
     list_all (\<lambda>row. length row = n_col_blocks x \<and> list_all (\<lambda>b. rect (values_of b)) row)
              (blocks x)"

text \<open>
  A block of the sparsity class \<open>sp\<close>.
\<close>

definition of_class :: "bool \<Rightarrow> block \<Rightarrow> bool" where
  "of_class sp b = same_kind b (if sp then Csr [] else Ndarray [])"

text \<open>
  The invariant of a store: every block is of the representation that the flag of the
  store says.
\<close>

definition uniform :: "array \<Rightarrow> bool" where
  "uniform x = list_all (list_all (of_class (sparse x))) (blocks x)"

section \<open>Shuffle and resample\<close>

text \<open>
  Consecutive chunks of \<open>w\<close> elements, the last one possibly shorter.
\<close>

function chunks :: "nat \<Rightarrow> 'a list \<Rightarrow> 'a list list" where
  "chunks w xs = (if xs = [] \<or> w = 0 then [] else take w xs # chunks w (drop w xs))"
  by pat_completeness auto

termination
  by (relation "measure (length \<circ> snd)") auto

declare chunks.simps [simp del]

text \<open>
  The constructor of a sparsity class: \<^verbatim>\<open>csr_matrix\<close> for a sparse store,
  \<^verbatim>\<open>np.array\<close> for a dense one.
\<close>

definition mk_block :: "bool \<Rightarrow> matrix \<Rightarrow> block" where
  "mk_block sp m = (if sp then Csr m else Ndarray m)"

text \<open>
  Modelled from the spec: the construction of a store from a matrix and a block size
  (\<^verbatim>\<open>ds.array\<close>, the splitting of a matrix into blocks) is not among the source files.
  The matrix is cut into row-bands of the block height and each row-band into column-blocks
  of the block width; the last band and the last block may be smaller.
\<close>

definition array_blocks :: "bool \<Rightarrow> nat \<times> nat \<Rightarrow> matrix \<Rightarrow> block list list" where
  "array_blocks sp bs m =
     map (\<lambda>band. map (\<lambda>j. mk_block sp (col_slice band j (j + snd bs)))
                     (py_range (ncols band) (snd bs)))
         (chunks (fst bs) m)"

text \<open>
  Modelled from the spec: \<^verbatim>\<open>dislib.utils.shuffle\<close> is not among the source files. It
  generates a permutation of \<open>[0, n_rows)\<close> from the seed and reorders the rows of the
  input into a new store with the same block-size scheme, shape and sparsity flag. The
  generator with its seed is the parameter \<open>permutation\<close>, which maps the number of rows
  to the permutation drawn.
\<close>

definition shuffle :: "(nat \<Rightarrow> nat list) \<Rightarrow> array \<Rightarrow> error + array" where
  "shuffle permutation x =
     (case merge_blocks (blocks x) of
        Inl e \<Rightarrow> Inl e
      | Inr m \<Rightarrow>
          (let rows = values_of m; p = permutation (length rows)
           in Inr \<lparr>blocks = array_blocks (sparse x) (blocks_shape x) (map (\<lambda>i. rows ! i) p),
                   blocks_shape = blocks_shape x, shape = shape x, sparse = sparse x\<rparr>))"

text \<open>
  Modelled from the spec: the dataset of the resample tests
  (\<^verbatim>\<open>load_data(x, subset_size)\<close>) is not among the source files. It is a list of subsets,
  each the matrix of its rows, with the configured subset size and the sparsity flag;
  \<^verbatim>\<open>len(dataset)\<close> is the number of subsets and \<^verbatim>\<open>dataset.samples\<close> holds all rows.
\<close>

record dataset =
  subsets :: "matrix list"
  subset_size :: nat
  ds_sparse :: bool

text \<open>
  Modelled from the spec: \<^verbatim>\<open>dislib.utils.resample\<close> is not among the source files. It
  draws \<open>n_samples\<close> row indices with replacement from \<open>[0, total_rows)\<close>. The generator
  with its seed is the parameter \<open>rng\<close>, the stream of numbers it yields: the index drawn
  at position \<open>i\<close> is the number at position \<open>i\<close> reduced into the range, so every sequence
  of indices of the range is the draw of some generator. Drawing from an empty range is a
  ValueError.
\<close>

definition draw_indices :: "(nat \<Rightarrow> nat) \<Rightarrow> nat \<Rightarrow> nat \<Rightarrow> error + nat list" where
  "draw_indices rng n_rows n_samples =
     (if n_rows = 0 \<and> 0 < n_samples then Inl ValueError
      else Inr (map (\<lambda>i. rng i mod n_rows) [0..<n_samples]))"

text \<open>
  The index range \<open>[lo, hi)\<close> that each subset takes in the row numbering of the whole
  dataset, from the sizes of the subsets.
\<close>

fun subset_ranges :: "nat \<Rightarrow> nat list \<Rightarrow> (nat \<times> nat) list" where
  "subset_ranges start [] = []"
| "subset_ranges start (n # ns) = (start, start + n) # subset_ranges (start + n) ns"

text \<open>
  The indices drawn from each source subset, in the order of the draw; a subset from which
  nothing was drawn gives no group.
\<close>

definition source_groups :: "dataset \<Rightarrow> nat list \<Rightarrow> nat list list" where
  "source_groups ds idx =
     filter (\<lambda>g. g \<noteq> [])
       (map (\<lambda>(lo, hi). filter (\<lambda>i. lo \<le> i \<and> i < hi) idx)
            (subset_ranges 0 (map length (subsets ds))))"

text \<open>
  Modelled from the spec: the dataset that \<^verbatim>\<open>resample\<close> returns holds the rows drawn and
  keeps the configuration and the sparsity flag of the input. The rows drawn from one
  source subset form one subset of the result, and a source subset from which no row was
  drawn contributes none. This is the partition that the tests of the repository fix:
  \<^verbatim>\<open>test_resample\<close> by ten subsets for 500 rows drawn from ten subsets of 100 rows, and
  \<^verbatim>\<open>test_resample_empty\<close>, which tests resample with empty subsets, by one subset for
  one row drawn.
\<close>

definition resample :: "(nat \<Rightarrow> nat) \<Rightarrow> dataset \<Rightarrow> nat \<Rightarrow> error + dataset" where
  "resample rng ds n_samples =
     (let rows = concat (subsets ds) in
      case draw_indices rng (length rows) n_samples of
        Inl e \<Rightarrow> Inl e
      | Inr idx \<Rightarrow> Inr (ds\<lparr>subsets := map (map (\<lambda>i. rows ! i)) (source_groups ds idx)\<rparr>))"


section \<open>The resample tests\<close>

text \<open>
  The assertions of \<^verbatim>\<open>test_resample\<close> in \<^verbatim>\<open>tests/test_utils.py\<close> on a resampled
  dataset: \<^verbatim>\<open>r1.samples.shape[0] == 500\<close> and \<^verbatim>\<open>len(r1) == 10\<close>.
\<close>

definition test_resample_asserts :: "dataset \<Rightarrow> bool" where
  "test_resample_asserts r1 = (length (concat (subsets r1)) = 500 \<and> length (subsets r1) = 10)"


text \<open>
  The dataset of both tests, \<^verbatim>\<open>load_data(np.random.random((1000, 500)), subset_size=100)\<close>:
  ten subsets of 100 rows and 500 features. The entries are random in the tests; the model
  fixes them.
\<close>

definition test_dataset :: dataset where
  "test_dataset = \<lparr>subsets = replicate 10 (replicate 100 (replicate 500 (Fin 0))),
                   subset_size = 100, ds_sparse = False\<rparr>"

section \<open>Concrete inputs\<close>

text \<open>A dense \<open>2 \<times> 4\<close> matrix held in two blocks of shape \<open>(2, 2)\<close>.\<close>

definition x_2x4 :: array where
  "x_2x4 = \<lparr>blocks = [[Ndarray [[Fin 1, Fin 2], [Fin 3, Fin 4]],
                        Ndarray [[Fin 5, Fin 6], [Fin 7, Fin 8]]]],
            blocks_shape = (2, 2), shape = (2, 4), sparse = False\<rparr>"

text \<open>A dense \<open>2 \<times> 3\<close> matrix with block shape \<open>(2, 2)\<close>: the last column block is
  narrower.\<close>

definition x_2x3 :: array where
  "x_2x3 = \<lparr>blocks = [[Ndarray [[Fin 1, Fin 2], [Fin 3, Fin 4]],
                        Ndarray [[Fin 5], [Fin 7]]]],
            blocks_shape = (2, 2), shape = (2, 3), sparse = False\<rparr>"

text \<open>A dense \<open>2 \<times> 2\<close> matrix held in one block of shape \<open>(2, 2)\<close>.\<close>

definition x_2x2 :: array where
  "x_2x2 = \<lparr>blocks = [[Ndarray [[Fin 1, Fin 2], [Fin 3, Fin 4]]]],
            blocks_shape = (2, 2), shape = (2, 2), sparse = False\<rparr>"

text \<open>A dense \<open>2 \<times> 1\<close> matrix with block shape \<open>(1, 1)\<close>: two row-bands, one
  column-band.\<close>

definition x_two_bands :: array where
  "x_two_bands = \<lparr>blocks = [[Ndarray [[Fin 1]]], [Ndarray [[Fin 3]]]],
                  blocks_shape = (1, 1), shape = (2, 1), sparse = False\<rparr>"

text \<open>The mean of \<open>x_2x3\<close> as the reduction kernel returns it.\<close>

definition mean_2x3 :: array where
  "mean_2x3 = \<lparr>blocks = [[Ndarray [[Fin 2, Fin 3]], Ndarray [[Fin 6]]]],
               blocks_shape = (1, 2), shape = (1, 3), sparse = False\<rparr>"

text \<open>
  A dense \<open>2 \<times> 1\<close> matrix held in one block, in a store of block shape \<open>(2, 2)\<close>.
\<close>

definition x_2x1 :: array where
  "x_2x1 = \<lparr>blocks = [[Ndarray [[Fin 1], [Fin 3]]]],
            blocks_shape = (2, 2), shape = (2, 1), sparse = False\<rparr>"

text \<open>
  The permutation that reverses the rows.
\<close>

definition reversal :: "nat \<Rightarrow> nat list" where
  "reversal n = rev [0..<n]"

text \<open>
  A generator that draws every second row.
\<close>

definition spread :: "nat \<Rightarrow> nat" where
  "spread i = 2 * i"


section \<open>Evaluation\<close>

lemmas array_ops =
  iterator_blocks_def n_col_blocks_def merge_blocks_def hstack_def vstack_def
  col_means_def column_def fl_mean_def ncols_def nrows_def elementwise_def bcast_def
  fl_sub_def col_slice_def py_range_def enumerate_eq_zip

lemmas scaler_ops =
  fit_def init_def apply_along_axis_mean_def var_tasks_def compute_var_def
  transform_def transform_task_def

section \<open>The unfitted scaler\<close>

text \<open>
  C2. On a scaler whose fitted mean or fitted variance is absent, in particular on one on
  which \<^verbatim>\<open>fit\<close> has never completed, \<^verbatim>\<open>transform\<close> fails for every input with the
  error of a model that is not fitted: the source raises
  \<^verbatim>\<open>Exception("Model has not been initialized.")\<close>.
\<close>

theorem transform_unfitted:
  "mean_attr s = None \<or> var_attr s = None \<Longrightarrow>
     transform s x = Inl (Exception ''Model has not been initialized.'')"
  by (auto simp: transform_def split: option.splits)

theorem transform_unfitted_witness:
  "(mean_attr init = None \<or> var_attr init = None) \<and>
     transform init x_2x2 = Inl (Exception ''Model has not been initialized.'')"
  using transform_unfitted [of init x_2x2] by (simp add: init_def)

section \<open>fit_transform\<close>

text \<open>
  C3. \<^verbatim>\<open>fit_transform(x)\<close> is \<^verbatim>\<open>fit(x)\<close> followed by \<^verbatim>\<open>transform(x)\<close> on the same
  input: it returns the same result, and leaves the same fitted state, as the two-call
  sequence.
\<close>

theorem fit_transform_is_fit_then_transform:
  "fit_transform s x = fit_then_transform s x"
  by (cases "fit s x") (auto simp: fit_transform_def fit_then_transform_def split: option.splits)

section \<open>The splitting loop of the transform task\<close>

text \<open>
  C10. The loop of \<^verbatim>\<open>_transform\<close> should assign only indices below the length of the
  output list. On the \<open>2 \<times> 4\<close> matrix in two blocks of shape \<open>(2, 2)\<close> the output list
  has \<open>x._blocks_shape[1] = 2\<close> slots, the grid of the row-band has one block-row, so
  \<open>bm = 1\<close>, the loop runs over the four columns, and the third assignment raises
  IndexError.
\<close>

theorem transform_index_error_2x4:
  "transform (fst (fit init x_2x4)) x_2x4 = Inl IndexError"
  by (simp add: x_2x4_def scaler_ops array_ops)

text \<open>
  C1. Transforming with a scaler fitted on the same matrix should give columns of mean 0
  and variance 1. On the \<open>2 \<times> 3\<close> matrix with block shape \<open>(2, 2)\<close>, whose columns all
  have variance 1, \<^verbatim>\<open>fit\<close> succeeds and \<^verbatim>\<open>transform\<close> raises IndexError.
\<close>

theorem fit_transform_fails_2x3:
  "snd (fit init x_2x3) = None \<and> transform (fst (fit init x_2x3)) x_2x3 = Inl IndexError"
  by (simp add: x_2x3_def scaler_ops array_ops)

text \<open>
  C6. The output of \<^verbatim>\<open>transform\<close> should have as many column-blocks in each row-band
  as the input. On the \<open>2 \<times> 2\<close> matrix in one block of shape \<open>(2, 2)\<close> the output
  row-band holds two blocks of one column each, under the unchanged block shape
  \<open>(2, 2)\<close>.
\<close>

theorem transform_block_count_2x2:
  "transform (fst (fit init x_2x2)) x_2x2 =
     Inr \<lparr>blocks = [[Ndarray [[Fin (- 1)], [Fin 1]], Ndarray [[Fin (- 1)], [Fin 1]]]],
          blocks_shape = (2, 2), shape = (2, 2), sparse = False\<rparr>
   \<and> map length (blocks x_2x2) = [1]"
  by (simp add: x_2x2_def scaler_ops array_ops eval_nat_numeral)

section \<open>Results of fallible lists\<close>

lemma sequence_Inr_map: "sequence rs = Inr vs \<Longrightarrow> rs = map Inr vs"
  by (induction rs arbitrary: vs) (auto split: sum.splits)

lemma sequence_map_Inr: "sequence (map (\<lambda>x. Inr (h x)) xs) = Inr (map h xs)"
  by (induction xs) auto

lemma sequence_Inr_length: "sequence rs = Inr vs \<Longrightarrow> length vs = length rs"
  by (drule sequence_Inr_map) simp

lemma sequence_Inr_nth: "sequence rs = Inr vs \<Longrightarrow> i < length rs \<Longrightarrow> rs ! i = Inr (vs ! i)"
  by (drule sequence_Inr_map) simp

section \<open>The variance tasks of fit\<close>

text \<open>
  C4, as stated: one variance task per row-band of the input. The \<open>2 \<times> 1\<close> matrix
  with block shape \<open>(1, 1)\<close> has two row-bands, and \<^verbatim>\<open>fit\<close> submits one variance
  task: the loop of \<^verbatim>\<open>fit\<close> runs over \<^verbatim>\<open>x._iterator(1)\<close>, the column-bands.
\<close>

theorem variance_tasks_not_per_row_band: "n_var_tasks x_two_bands \<noteq> length (iterator_blocks 0 x_two_bands)"
  by (simp add: n_var_tasks_def x_two_bands_def scaler_ops array_ops)

lemma iterator_blocks_1:
  "iterator_blocks (Suc 0) x = map (\<lambda>j. map (\<lambda>row. [row ! j]) (blocks x)) [0..<n_col_blocks x]"
  by (simp add: iterator_blocks_def)

lemma iterator_blocks_1_length: "length (iterator_blocks (Suc 0) x) = n_col_blocks x"
  by (simp add: iterator_blocks_1)

section \<open>Elementwise operations and the assignment loop\<close>

lemma sequence_map2_Inr:
  "sequence (map2 (\<lambda>u v. Inr (f u v)) r b) = Inr (map2 f r b)"
  by (induction r b rule: list_induct2') auto

lemma bcast_same_length:
  "length r = length b \<Longrightarrow> bcast (\<lambda>u v. Inr (f u v)) r b = Inr (map2 f r b)"
  by (simp add: bcast_def sequence_map2_Inr)

lemma elementwise_row:
  assumes "list_all (\<lambda>r. length r = length brow) a"
  shows "elementwise f a [brow] = Inr (map (\<lambda>r. map2 f r brow) a)"
proof -
  let ?g = "bcast (\<lambda>u v. Inr (f u v))"
  have rows: "map (\<lambda>r. ?g r brow) a = map (\<lambda>r. Inr (map2 f r brow)) a"
    using assms by (auto simp: list_all_iff bcast_same_length)
  have seq: "sequence (map (\<lambda>r. ?g r brow) a) = Inr (map (\<lambda>r. map2 f r brow) a)"
    unfolding rows by (rule sequence_map_Inr)
  show ?thesis
  proof (cases "length a = 1")
    case True
    then obtain r where a: "a = [r]" by (cases a) auto
    with seq show ?thesis by (simp add: elementwise_def bcast_def [of ?g])
  next
    case False
    with seq show ?thesis by (simp add: elementwise_def bcast_def [of ?g])
  qed
qed

lemma assign_blocks_Inr:
  "assign_blocks cf sx bm (zip [k..<k + length js] js) out = Inr out' \<Longrightarrow>
     length out' = length out \<and>
     (\<forall>i<length js. out' ! (k + i) = cf (col_slice sx (js ! i) (js ! i + bm))) \<and>
     (\<forall>i<k. out' ! i = out ! i)"
proof (induction js arbitrary: k out)
  case Nil
  then show ?case by simp
next
  case (Cons j js)
  have z: "zip [k..<k + length (j # js)] (j # js) = (k, j) # zip [Suc k..<Suc k + length js] js"
    by (subst upt_rec) simp
  from Cons.prems have k: "k < length out"
    and rest: "assign_blocks cf sx bm (zip [Suc k..<Suc k + length js] js)
                 (out[k := cf (col_slice sx j (j + bm))]) = Inr out'"
    unfolding z by (auto split: if_splits)
  from Cons.IH [OF rest]
  have len: "length out' = length out"
    and later: "\<forall>i<length js. out' ! (Suc k + i) = cf (col_slice sx (js ! i) (js ! i + bm))"
    and earlier: "\<forall>i<Suc k. out' ! i = (out[k := cf (col_slice sx j (j + bm))]) ! i"
    by auto
  have here: "out' ! k = cf (col_slice sx j (j + bm))"
    using earlier k by simp
  have "\<forall>i<length (j # js). out' ! (k + i) = cf (col_slice sx ((j # js) ! i) ((j # js) ! i + bm))"
  proof (intro allI impI)
    fix i assume "i < length (j # js)"
    then show "out' ! (k + i) = cf (col_slice sx ((j # js) ! i) ((j # js) ! i + bm))"
      using here later by (cases i) auto
  qed
  moreover have "\<forall>i<k. out' ! i = out ! i"
    using earlier by auto
  ultimately show ?case using len by blast
qed

lemma py_range_length: "length (py_range stop step) = (stop + step - 1) div step"
  by (simp add: py_range_def)





section \<open>Zero variance\<close>




section \<open>Sparsity of the transformed blocks\<close>

lemma merge_blocks_issparse:
  "merge_blocks [row] = Inr X \<Longrightarrow> row \<noteq> [] \<and> issparse X = issparse (hd row)"
  by (cases row) (auto simp: merge_blocks_def split: sum.splits if_splits)

lemma of_class_issparse: "of_class sp b \<Longrightarrow> issparse b = sp"
  by (cases b) (auto simp: of_class_def split: if_splits)

section \<open>Chunks\<close>

lemma chunks_Nil [simp]: "chunks n [] = []"
  by (simp add: chunks.simps)

lemma chunks_step: "0 < n \<Longrightarrow> xs \<noteq> [] \<Longrightarrow> chunks n xs = take n xs # chunks n (drop n xs)"
  by (subst chunks.simps) simp

lemma concat_chunks: "0 < n \<Longrightarrow> concat (chunks n xs) = xs"
proof (induction n xs rule: chunks.induct)
  case (1 n xs)
  then show ?case by (cases "xs = []") (simp_all add: chunks_step)
qed

lemma chunks_no_empty: "[] \<notin> set (chunks n xs)"
proof (induction n xs rule: chunks.induct)
  case (1 n xs)
  show ?case
  proof (cases "xs = [] \<or> n = 0")
    case True
    then show ?thesis by (subst chunks.simps) simp
  next
    case False
    with 1 show ?thesis by (subst chunks.simps) auto
  qed
qed

lemma chunks_subset: "c \<in> set (chunks n xs) \<Longrightarrow> set c \<subseteq> set xs"
proof (induction n xs rule: chunks.induct)
  case (1 n xs)
  show ?case
  proof (cases "xs = [] \<or> n = 0")
    case True
    with "1.prems" show ?thesis by (simp add: chunks.simps)
  next
    case False
    then have "chunks n xs = take n xs # chunks n (drop n xs)" by (simp add: chunks_step)
    with "1.prems" consider "c = take n xs" | "c \<in> set (chunks n (drop n xs))" by auto
    then show ?thesis
    proof cases
      case 1
      then show ?thesis by (auto dest: in_set_takeD)
    next
      case 2
      with "1.IH" False have "set c \<subseteq> set (drop n xs)" by simp
      then show ?thesis by (auto dest: in_set_dropD)
    qed
  qed
qed



section \<open>Splitting a matrix into blocks and merging it back\<close>

lemma values_of_mk_block [simp]: "values_of (mk_block sp m) = m"
  by (simp add: mk_block_def)

lemma same_kind_mk_block [simp]: "same_kind (mk_block sp a) (mk_block sp b)"
  by (simp add: mk_block_def)

lemma issparse_mk_block [simp]: "issparse (mk_block sp m) = sp"
  by (simp add: mk_block_def)

lemma take_chunks: "concat (map (\<lambda>i. take n (drop (i * n) r)) [0..<k]) = take (k * n) r"
proof (induction k)
  case 0
  then show ?case by simp
next
  case (Suc k)
  have "take (k * n) r @ take n (drop (k * n) r) = take (k * n + n) r"
    by (simp add: take_add)
  with Suc show ?case by (simp add: add.commute)
qed

lemma ceil_mult_ge:
  fixes F :: nat
  assumes "0 < bw"
  shows "F \<le> (F + bw - 1) div bw * bw"
proof -
  have "(F + bw - 1) mod bw < bw" using assms by simp
  moreover have "(F + bw - 1) div bw * bw + (F + bw - 1) mod bw = F + bw - 1" by simp
  ultimately show ?thesis by linarith
qed

lemma foldl_happend:
  "length A = length B \<Longrightarrow>
     foldl (\<lambda>acc a. map2 (@) acc a) A (map (\<lambda>j. map (g j) B) js) =
       map2 (\<lambda>a r. a @ concat (map (\<lambda>j. g j r) js)) A B"
proof (induction js arbitrary: A)
  case Nil
  then show ?case by (intro nth_equalityI) auto
next
  case (Cons j js)
  let ?A' = "map2 (@) A (map (g j) B)"
  have len: "length ?A' = length B" using Cons.prems by simp
  have "foldl (\<lambda>acc a. map2 (@) acc a) A (map (\<lambda>j. map (g j) B) (j # js)) =
          map2 (\<lambda>a r. a @ concat (map (\<lambda>j. g j r) js)) ?A' B"
    using Cons.IH [OF len] by simp
  also have "\<dots> = map2 (\<lambda>a r. a @ concat (map (\<lambda>j. g j r) (j # js))) A B"
    using Cons.prems by (intro nth_equalityI) auto
  finally show ?case .
qed

lemma col_slice_width: "col_slice B j (j + bw) = map (\<lambda>r. take bw (drop j r)) B"
  by (simp add: col_slice_def)

lemma hstack_Cons:
  "list_all (\<lambda>a. nrows a = nrows m) rest \<Longrightarrow>
     hstack (m # rest) = Inr (foldl (\<lambda>acc a. map2 (@) acc a) m rest)"
  by (simp add: hstack_def)

lemma hstack_pieces:
  assumes B: "B \<noteq> []" and rows: "list_all (\<lambda>r. length r = F) B" and F: "0 < F" and bw: "0 < bw"
  shows "hstack (map (\<lambda>j. col_slice B j (j + bw)) (py_range F bw)) = Inr B"
proof -
  let ?k = "(F + bw - 1) div bw"
  let ?g = "\<lambda>j r. take bw (drop j r)"
  let ?js = "map (\<lambda>i. i * bw) [Suc 0..<?k]"
  have cover: "F \<le> ?k * bw" using bw by (rule ceil_mult_ge)
  then have k: "0 < ?k" using F by (cases "?k = 0") auto
  have range: "py_range F bw = 0 # ?js"
    using k by (simp add: py_range_def upt_conv_Cons)
  have pieces: "map (\<lambda>j. col_slice B j (j + bw)) (py_range F bw) =
                  map (take bw) B # map (\<lambda>j. map (?g j) B) ?js"
    unfolding range by (simp add: col_slice_width)
  have "foldl (\<lambda>acc a. map2 (@) acc a) (map (take bw) B) (map (\<lambda>j. map (?g j) B) ?js) =
          map2 (\<lambda>a r. a @ concat (map (\<lambda>j. ?g j r) ?js)) (map (take bw) B) B"
    by (rule foldl_happend) simp
  also have "\<dots> = map (\<lambda>r. concat (map (\<lambda>i. ?g (i * bw) r) [0..<?k])) B"
    using k by (intro nth_equalityI) (auto simp: upt_conv_Cons comp_def)
  also have "\<dots> = map (take (?k * bw)) B"
    by (simp add: take_chunks)
  also have "\<dots> = B"
    using rows cover by (intro nth_equalityI) (auto simp: list_all_length)
  finally have fold: "foldl (\<lambda>acc a. map2 (@) acc a) (map (take bw) B)
                        (map (\<lambda>j. map (?g j) B) ?js) = B" .
  have "list_all (\<lambda>a. nrows a = nrows (map (take bw) B)) (map (\<lambda>j. map (?g j) B) ?js)"
    by (simp add: list_all_iff nrows_def)
  then have "hstack (map (take bw) B # map (\<lambda>j. map (?g j) B) ?js) =
               Inr (foldl (\<lambda>acc a. map2 (@) acc a) (map (take bw) B)
                      (map (\<lambda>j. map (?g j) B) ?js))"
    by (rule hstack_Cons)
  then show ?thesis
    unfolding pieces fold .
qed

lemma merge_blocksI:
  assumes "grid \<noteq> []" and "hd grid \<noteq> []"
    and "list_all (list_all (same_kind (hd (hd grid)))) grid"
    and "sequence (map (\<lambda>row. hstack (map values_of row)) grid) = Inr bands"
    and "vstack bands = Inr M"
  shows "merge_blocks grid = Inr (if issparse (hd (hd grid)) then Csr M else Ndarray M)"
proof -
  from assms(1,2) obtain b0 r0 g where g: "grid = (b0 # r0) # g"
    by (cases grid; cases "hd grid") auto
  show ?thesis
    using assms(3,4,5) unfolding g by (simp add: merge_blocks_def)
qed

lemma chunks_nonempty: "0 < n \<Longrightarrow> xs \<noteq> [] \<Longrightarrow> chunks n xs \<noteq> []"
  by (simp add: chunks_step)

lemma ncols_eq: "B \<noteq> [] \<Longrightarrow> list_all (\<lambda>r. length r = F) B \<Longrightarrow> ncols B = F"
  by (cases B) (auto simp: ncols_def)

lemma merge_array_blocks:
  assumes m: "m \<noteq> []" and rect: "rect m" and F: "0 < ncols m" and bh: "0 < bh" and bw: "0 < bw"
  shows "merge_blocks (array_blocks sp (bh, bw) m) = Inr (mk_block sp m)"
proof -
  let ?F = "ncols m"
  let ?bands = "chunks bh m"
  let ?row = "\<lambda>band. map (\<lambda>j. mk_block sp (col_slice band j (j + bw))) (py_range (ncols band) bw)"
  let ?grid = "map ?row ?bands"
  have grid: "array_blocks sp (bh, bw) m = ?grid" by (simp add: array_blocks_def)
  have rows: "list_all (\<lambda>r. length r = ?F) m" using rect by (simp add: rect_def)
  have band: "b \<noteq> [] \<and> list_all (\<lambda>r. length r = ?F) b \<and> ncols b = ?F"
    if "b \<in> set ?bands" for b
  proof -
    have ne: "b \<noteq> []" using that chunks_no_empty [of bh m] by auto
    have "set b \<subseteq> set m" using that by (rule chunks_subset)
    then have all: "list_all (\<lambda>r. length r = ?F) b" using rows by (auto simp: list_all_iff)
    from ne all ncols_eq show ?thesis by blast
  qed
  have bands_ne: "?bands \<noteq> []" using bh m by (rule chunks_nonempty)
  have k: "0 < (?F + bw - 1) div bw"
    using ceil_mult_ge [OF bw, of ?F] F by (cases "(?F + bw - 1) div bw = 0") auto
  have range_ne: "py_range ?F bw \<noteq> []"
    using k by (simp add: py_range_def)
  have row_ne: "?row b \<noteq> []" if "b \<in> set ?bands" for b
    using band [OF that] range_ne by simp
  have g1: "?grid \<noteq> []" using bands_ne by simp
  have g2: "hd ?grid \<noteq> []"
    using bands_ne row_ne [of "hd ?bands"] by (simp add: hd_map)
  have hdhd: "hd (hd ?grid) = mk_block sp (col_slice (hd ?bands) 0 (0 + bw))"
  proof -
    have "hd ?grid = ?row (hd ?bands)" using bands_ne by (simp add: hd_map)
    moreover have "ncols (hd ?bands) = ?F" using band [of "hd ?bands"] bands_ne by simp
    moreover have "hd (py_range ?F bw) = 0" using k by (simp add: py_range_def hd_map upt_conv_Cons)
    ultimately show ?thesis using range_ne by (simp add: hd_map)
  qed
  have g3: "list_all (list_all (same_kind (hd (hd ?grid)))) ?grid"
    unfolding hdhd by (simp add: list_all_iff)
  have each: "hstack (map (\<lambda>j. values_of (mk_block sp (col_slice b j (j + bw))))
                       (py_range (ncols b) bw)) = Inr b" if b: "b \<in> set ?bands" for b
  proof -
    have "hstack (map (\<lambda>j. col_slice b j (j + bw)) (py_range ?F bw)) = Inr b"
      using band [OF b] F bw by (intro hstack_pieces) auto
    then show ?thesis using band [OF b] by simp
  qed
  have eq: "map (\<lambda>row. hstack (map values_of row)) ?grid = map Inr ?bands"
    unfolding map_map comp_def by (rule map_cong [OF refl]) (rule each)
  have g4: "sequence (map (\<lambda>row. hstack (map values_of row)) ?grid) = Inr ?bands"
    unfolding eq using sequence_map_Inr [of "\<lambda>b. b" ?bands] by simp
  have g5: "vstack ?bands = Inr m"
  proof -
    obtain b0 rest where br: "?bands = b0 # rest" using bands_ne by (cases ?bands) auto
    have "list_all (\<lambda>a. ncols a = ncols b0) rest"
      using band br by (auto simp: list_all_iff)
    then have "vstack ?bands = Inr (concat ?bands)"
      unfolding br by (simp add: vstack_def)
    then show ?thesis using bh by (simp add: concat_chunks)
  qed
  have "merge_blocks ?grid = Inr (if issparse (hd (hd ?grid)) then Csr m else Ndarray m)"
    using g1 g2 g3 g4 g5 by (rule merge_blocksI)
  then show ?thesis unfolding grid hdhd by (simp add: mk_block_def)
qed

section \<open>Shuffle\<close>

lemma mset_permuted:
  assumes "mset p = mset [0..<length rows]"
  shows "mset (map (\<lambda>i. rows ! i) p) = mset rows"
proof -
  have "mset (map (\<lambda>i. rows ! i) p) = image_mset (\<lambda>i. rows ! i) (mset p)" by simp
  also have "\<dots> = image_mset (\<lambda>i. rows ! i) (mset [0..<length rows])" using assms by simp
  also have "\<dots> = mset (map (\<lambda>i. rows ! i) [0..<length rows])" by simp
  also have "\<dots> = mset rows" by (simp add: map_nth)
  finally show ?thesis .
qed

text \<open>
  C8. For every store that merges to a matrix with at least one row and one column, every
  positive block size and every permutation of the row indices that the seeded generator
  yields, shuffle returns a store of the same shape and block size whose rows, as a multiset
  of row vectors, are exactly the rows of the input; the numbers of rows and columns are
  unchanged.
\<close>

theorem shuffle_preserves_rows:
  assumes mx: "merge_blocks (blocks x) = Inr xm"
    and ne: "values_of xm \<noteq> []"
    and rect: "rect (values_of xm)"
    and F: "0 < ncols (values_of xm)"
    and bh: "0 < fst (blocks_shape x)"
    and bw: "0 < snd (blocks_shape x)"
    and perm: "mset (permutation (length (values_of xm))) = mset [0..<length (values_of xm)]"
  shows "\<exists>y ym. shuffle permutation x = Inr y \<and> shape y = shape x \<and>
           blocks_shape y = blocks_shape x \<and> merge_blocks (blocks y) = Inr ym \<and>
           mset (values_of ym) = mset (values_of xm) \<and>
           nrows (values_of ym) = nrows (values_of xm) \<and>
           ncols (values_of ym) = ncols (values_of xm)"
proof -
  let ?rows = "values_of xm"
  let ?rows' = "map (\<lambda>i. ?rows ! i) (permutation (length ?rows))"
  let ?y = "\<lparr>blocks = array_blocks (sparse x) (blocks_shape x) ?rows',
             blocks_shape = blocks_shape x, shape = shape x, sparse = sparse x\<rparr>"
  have sh: "shuffle permutation x = Inr ?y"
    by (simp add: shuffle_def mx Let_def)
  have ms: "mset ?rows' = mset ?rows" using perm by (rule mset_permuted)
  then have set: "set ?rows' = set ?rows" by (rule mset_eq_setD)
  have len: "length ?rows' = length ?rows" using ms by (rule mset_eq_length)
  have ne': "?rows' \<noteq> []" using len ne by auto
  have all: "list_all (\<lambda>r. length r = ncols ?rows) ?rows'"
    using rect set unfolding rect_def list_all_iff by blast
  have nc: "ncols ?rows' = ncols ?rows" using ne' all by (rule ncols_eq)
  have rect': "rect ?rows'" using all nc by (simp add: rect_def)
  have "merge_blocks (array_blocks (sparse x) (fst (blocks_shape x), snd (blocks_shape x)) ?rows') =
          Inr (mk_block (sparse x) ?rows')"
    using ne' rect' F bh bw by (intro merge_array_blocks) (simp_all add: nc)
  then have "merge_blocks (blocks ?y) = Inr (mk_block (sparse x) ?rows')" by simp
  with sh ms len nc show ?thesis
    by (intro exI [of _ ?y] exI [of _ "mk_block (sparse x) ?rows'"]) (simp add: nrows_def)
qed

theorem shuffle_preserves_rows_witness:
  "merge_blocks (blocks x_2x2) = Inr (Ndarray [[Fin 1, Fin 2], [Fin 3, Fin 4]]) \<and>
   mset (reversal 2) = mset [0..<2] \<and>
   (\<exists>y ym. shuffle reversal x_2x2 = Inr y \<and> shape y = shape x_2x2 \<and>
      blocks_shape y = blocks_shape x_2x2 \<and> merge_blocks (blocks y) = Inr ym \<and>
      mset (values_of ym) = mset (values_of (Ndarray [[Fin 1, Fin 2], [Fin 3, Fin 4]])) \<and>
      nrows (values_of ym) = nrows (values_of (Ndarray [[Fin 1, Fin 2], [Fin 3, Fin 4]])) \<and>
      ncols (values_of ym) = ncols (values_of (Ndarray [[Fin 1, Fin 2], [Fin 3, Fin 4]])))"
proof -
  let ?xm = "Ndarray [[Fin 1, Fin 2], [Fin 3, Fin 4]]"
  have mx: "merge_blocks (blocks x_2x2) = Inr ?xm"
    by (simp add: x_2x2_def array_ops)
  have p: "mset (reversal (length (values_of ?xm))) = mset [0..<length (values_of ?xm)]"
    by (simp add: reversal_def)
  have p2: "mset (reversal 2) = mset [0..<2]"
    by (simp add: reversal_def)
  have ex: "\<exists>y ym. shuffle reversal x_2x2 = Inr y \<and> shape y = shape x_2x2 \<and>
      blocks_shape y = blocks_shape x_2x2 \<and> merge_blocks (blocks y) = Inr ym \<and>
      mset (values_of ym) = mset (values_of ?xm) \<and>
      nrows (values_of ym) = nrows (values_of ?xm) \<and>
      ncols (values_of ym) = ncols (values_of ?xm)"
    by (rule shuffle_preserves_rows [where permutation = reversal and x = x_2x2
          and xm = ?xm, OF mx _ _ _ _ _ p])
      (simp_all add: rect_def ncols_def x_2x2_def)
  from mx p2 ex show ?thesis by (intro conjI)
qed

section \<open>The variance computed by a task\<close>

lemma rows_rect: "list_all (\<lambda>r. length r = w) M \<Longrightarrow> rect M"
  by (cases M) (auto simp: rect_def ncols_def list_all_iff)

lemma happend_rows:
  "list_all (\<lambda>r. length r = wa) A \<Longrightarrow> list_all (\<lambda>r. length r = wb) a \<Longrightarrow>
     list_all (\<lambda>r. length r = wa + wb) (map2 (@) A a)"
  by (auto simp: list_all_iff dest!: set_zip_leftD set_zip_rightD
      elim!: in_set_zipE)

lemma foldl_happend_rows:
  "list_all (\<lambda>r. length r = w) A \<Longrightarrow> list_all rect rest \<Longrightarrow>
     \<exists>w'. list_all (\<lambda>r. length r = w') (foldl (\<lambda>acc a. map2 (@) acc a) A rest)"
proof (induction rest arbitrary: A w)
  case Nil
  then show ?case by auto
next
  case (Cons a rest)
  from Cons.prems(2) have a: "rect a" and rest: "list_all rect rest"
    by simp_all
  from a have "list_all (\<lambda>r. length r = ncols a) a" by (simp add: rect_def)
  with Cons.prems(1) have "list_all (\<lambda>r. length r = w + ncols a) (map2 (@) A a)"
    by (intro happend_rows)
  from Cons.IH [OF this rest] show ?case by simp
qed

lemma hstack_rect: "hstack ms = Inr B \<Longrightarrow> list_all rect ms \<Longrightarrow> rect B"
proof -
  assume h: "hstack ms = Inr B" and r: "list_all rect ms"
  from h obtain m rest where ms: "ms = m # rest"
    and B: "B = foldl (\<lambda>acc a. map2 (@) acc a) m rest"
    by (cases ms) (auto simp: hstack_def split: if_splits)
  from r ms have m: "rect m" and rest: "list_all rect rest"
    by simp_all
  from m have "list_all (\<lambda>r. length r = ncols m) m" by (simp add: rect_def)
  from foldl_happend_rows [OF this rest] B show "rect B" by (auto intro: rows_rect)
qed

lemma vstack_rect: "vstack bands = Inr X \<Longrightarrow> list_all rect bands \<Longrightarrow> rect X"
proof -
  assume v: "vstack bands = Inr X" and r: "list_all rect bands"
  from v obtain b0 rest where bs: "bands = b0 # rest"
    and same: "list_all (\<lambda>a. ncols a = ncols b0) rest" and X: "X = concat bands"
    by (cases bands) (auto simp: vstack_def split: if_splits)
  have "length row = ncols b0" if "b \<in> set bands" "row \<in> set b" for b row
  proof -
    from that(1) bs same have "ncols b = ncols b0" by (auto simp: list_all_iff)
    moreover from that r have "length row = ncols b" by (auto simp: list_all_iff rect_def)
    ultimately show ?thesis by simp
  qed
  then have "list_all (\<lambda>r. length r = ncols b0) X"
    unfolding X by (auto simp: list_all_iff)
  then show "rect X" by (rule rows_rect)
qed

lemma merge_blocks_rect:
  assumes "merge_blocks grid = Inr X"
    and "list_all (list_all (\<lambda>b. rect (values_of b))) grid"
  shows "rect (values_of X)"
proof -
  from assms(1) obtain bands where seq: "sequence (map (\<lambda>row. hstack (map values_of row)) grid) = Inr bands"
    and v: "vstack bands = Inr (values_of X)"
    by (auto simp: merge_blocks_def split: list.splits if_splits sum.splits)
  have len: "length bands = length grid"
    using sequence_Inr_length [OF seq] by simp
  have "rect (bands ! k)" if k: "k < length bands" for k
  proof -
    have "hstack (map values_of (grid ! k)) = Inr (bands ! k)"
      using sequence_Inr_nth [OF seq, of k] k len by simp
    moreover have "list_all rect (map values_of (grid ! k))"
      using assms(2) k len by (auto simp: list_all_length)
    ultimately show ?thesis by (rule hstack_rect)
  qed
  then have "list_all rect bands" by (simp add: list_all_length)
  with v show ?thesis by (rule vstack_rect)
qed

lemma merge_single_row: "merge_blocks [[Ndarray [mu]]] = Inr (Ndarray [mu])"
  by (simp add: merge_blocks_def hstack_def vstack_def)

lemma compute_var_variance:
  assumes mx: "merge_blocks band = Inr X" and rect: "rect (values_of X)"
  shows "compute_var band [[Ndarray [col_means (values_of X)]]] =
           Inr (Ndarray [variance_row (values_of X)])"
proof -
  let ?X = "values_of X"
  let ?mu = "col_means ?X"
  let ?d = "map (\<lambda>row. map2 fl_sub row ?mu) ?X"
  let ?D = "map (map fl_sq) ?d"
  have lmu: "length ?mu = ncols ?X" by (simp add: col_means_def)
  have rows: "list_all (\<lambda>row. length row = length ?mu) ?X"
    using rect by (simp add: rect_def lmu)
  have d: "elementwise fl_sub ?X [?mu] = Inr ?d"
    by (rule elementwise_row [OF rows])
  have nc: "ncols ?D = ncols ?X"
  proof (cases ?X)
    case Nil
    then show ?thesis by (simp add: ncols_def)
  next
    case (Cons r rs)
    with rows have "length r = length ?mu" by simp
    with Cons show ?thesis by (simp add: ncols_def)
  qed
  have col: "column ?D c = map (\<lambda>v. fl_sq (fl_sub v (fl_mean (column ?X c)))) (column ?X c)"
    if c: "c < ncols ?X" for c
  proof -
    have "(map fl_sq (map2 fl_sub row ?mu)) ! c = fl_sq (fl_sub (row ! c) (fl_mean (column ?X c)))"
      if "row \<in> set ?X" for row
    proof -
      from that rows have "length row = ncols ?X" by (auto simp: list_all_iff lmu)
      with c lmu show ?thesis by (simp add: col_means_def)
    qed
    then show ?thesis by (simp add: column_def comp_def)
  qed
  have "col_means ?D = map (\<lambda>c. fl_mean (column ?D c)) [0..<ncols ?D]"
    by (rule col_means_def)
  also have "\<dots> = map (\<lambda>c. fl_mean (column ?D c)) [0..<ncols ?X]"
    by (simp only: nc)
  also have "\<dots> = variance_row ?X"
    unfolding variance_row_def
    by (intro map_cong refl arg_cong [where f = fl_mean] col) simp
  finally have "col_means ?D = variance_row ?X" .
  then show ?thesis
    by (simp add: compute_var_def mx merge_single_row d)
qed

text \<open>
  C4, amended. During \<^verbatim>\<open>fit\<close>, once the mean is computed, exactly one variance task
  is submitted for each column-band of the input, a store with a rectangular grid of
  rectangular blocks. The task of column-band \<open>j\<close> receives the blocks of that column-band
  (block \<open>j\<close> of every block-row) and the block \<open>j\<close> of the mean, which holds the column
  means of that band. It returns one dense row, \<^verbatim>\<open>mean((X - mean) ** 2, axis=0)\<close> over
  the merged band \<open>X\<close>: the variance of each column of the band, as many entries as the
  band has columns.
\<close>

theorem fit_variance_tasks:
  assumes mean: "apply_along_axis_mean x = Inr m" and wf: "well_formed x"
  shows "length (var_tasks x m) = n_col_blocks x \<and>
         (\<forall>j<n_col_blocks x.
            iterator_blocks 1 x ! j = map (\<lambda>row. [row ! j]) (blocks x) \<and>
            (\<exists>X. merge_blocks (iterator_blocks 1 x ! j) = Inr X \<and>
                 var_tasks x m ! j =
                   compute_var (iterator_blocks 1 x ! j) [[Ndarray [col_means (values_of X)]]] \<and>
                 var_tasks x m ! j = Inr (Ndarray [variance_row (values_of X)]) \<and>
                 length (variance_row (values_of X)) = ncols (values_of X)))"
proof -
  let ?F = "\<lambda>band. case merge_blocks band of Inl e \<Rightarrow> Inl e
                    | Inr m \<Rightarrow> Inr (Ndarray [col_means (values_of m)])"
  from mean obtain ms where seq: "sequence (map ?F (iterator_blocks 1 x)) = Inr ms"
    and m: "blocks m = [ms]"
    by (auto simp: apply_along_axis_mean_def split: sum.splits)
  have len: "length ms = n_col_blocks x"
    using sequence_Inr_length [OF seq] by (simp add: iterator_blocks_1_length)
  have itm: "iterator_blocks (Suc 0) m = map (\<lambda>j. [[ms ! j]]) [0..<length ms]"
    by (simp add: iterator_blocks_1 n_col_blocks_def m)
  have l: "length (var_tasks x m) = n_col_blocks x"
    by (simp add: var_tasks_def itm len iterator_blocks_1_length)
  have "iterator_blocks 1 x ! j = map (\<lambda>row. [row ! j]) (blocks x) \<and>
            (\<exists>X. merge_blocks (iterator_blocks 1 x ! j) = Inr X \<and>
                 var_tasks x m ! j =
                   compute_var (iterator_blocks 1 x ! j) [[Ndarray [col_means (values_of X)]]] \<and>
                 var_tasks x m ! j = Inr (Ndarray [variance_row (values_of X)]) \<and>
                 length (variance_row (values_of X)) = ncols (values_of X))"
    if j: "j < n_col_blocks x" for j
  proof -
    have b: "iterator_blocks 1 x ! j = map (\<lambda>row. [row ! j]) (blocks x)"
      using j by (simp add: iterator_blocks_1)
    have "map ?F (iterator_blocks 1 x) ! j = Inr (ms ! j)"
      using sequence_Inr_nth [OF seq, of j] j by (simp add: iterator_blocks_1_length)
    then have Fj: "?F (iterator_blocks 1 x ! j) = Inr (ms ! j)"
      using j by (simp add: iterator_blocks_1_length)
    then obtain X where X: "merge_blocks (iterator_blocks 1 x ! j) = Inr X"
      and msj: "ms ! j = Ndarray [col_means (values_of X)]"
      by (auto split: sum.splits)
    have "list_all (list_all (\<lambda>b. rect (values_of b))) (iterator_blocks 1 x ! j)"
      unfolding b using wf j by (auto simp: well_formed_def list_all_iff)
    with X have rect: "rect (values_of X)" by (rule merge_blocks_rect)
    have task: "var_tasks x m ! j =
                  compute_var (iterator_blocks 1 x ! j) [[Ndarray [col_means (values_of X)]]]"
      using j by (simp add: var_tasks_def itm len iterator_blocks_1_length msj)
    have "compute_var (iterator_blocks 1 x ! j) [[Ndarray [col_means (values_of X)]]] =
            Inr (Ndarray [variance_row (values_of X)])"
      using X rect by (rule compute_var_variance)
    with task have val: "var_tasks x m ! j = Inr (Ndarray [variance_row (values_of X)])"
      by simp
    have w: "length (variance_row (values_of X)) = ncols (values_of X)"
      by (simp add: variance_row_def)
    from b X task val w show ?thesis by blast
  qed
  with l show ?thesis by blast
qed

text \<open>
  The theorem at the \<open>2 \<times> 3\<close> matrix in blocks of shape \<open>(2, 2)\<close>: two tasks, and the
  task of the second column-band, the column with the rows 5 and 7, returns the variance 1.
\<close>

theorem fit_variance_tasks_witness:
  "apply_along_axis_mean x_2x3 = Inr mean_2x3 \<and> well_formed x_2x3 \<and>
   length (var_tasks x_2x3 mean_2x3) = 2 \<and>
   var_tasks x_2x3 mean_2x3 ! 1 = Inr (Ndarray [[Fin 1]])"
proof -
  have h: "apply_along_axis_mean x_2x3 = Inr mean_2x3"
    by (simp add: x_2x3_def mean_2x3_def scaler_ops array_ops)
  have wf: "well_formed x_2x3"
    by (simp add: well_formed_def x_2x3_def n_col_blocks_def rect_def ncols_def)
  have n: "n_col_blocks x_2x3 = 2"
    by (simp add: x_2x3_def n_col_blocks_def)
  have b: "iterator_blocks 1 x_2x3 ! 1 = [[Ndarray [[Fin 5], [Fin 7]]]]"
    by (simp add: x_2x3_def array_ops)
  have mb: "merge_blocks [[Ndarray [[Fin 5], [Fin 7]]]] = Inr (Ndarray [[Fin 5], [Fin 7]])"
    by (simp add: array_ops)
  have v: "variance_row [[Fin 5], [Fin 7]] = [Fin 1]"
    by (simp add: variance_row_def array_ops)
  from fit_variance_tasks [OF h wf] have l: "length (var_tasks x_2x3 mean_2x3) = 2"
    unfolding n by blast
  have "(1::nat) < 2" by simp
  with fit_variance_tasks [OF h wf]
  have "\<exists>X. merge_blocks (iterator_blocks 1 x_2x3 ! 1) = Inr X \<and>
           var_tasks x_2x3 mean_2x3 ! 1 = Inr (Ndarray [variance_row (values_of X)])"
    unfolding n by blast
  then have "var_tasks x_2x3 mean_2x3 ! 1 = Inr (Ndarray [[Fin 1]])"
    unfolding b mb using v by auto
  with h wf l show ?thesis by simp
qed

section \<open>The placeholder left by transform\<close>

text \<open>
  C7. Every block of the output of \<^verbatim>\<open>transform\<close> should be built by the constructor
  of the class of the input, dense for a dense input. On the dense \<open>2 \<times> 1\<close> matrix with
  the rows 1 and 3, held in a store of block shape \<open>(2, 2)\<close>, \<^verbatim>\<open>fit\<close> succeeds and
  \<^verbatim>\<open>transform\<close> returns a block-row of two entries: the dense block of the scaled
  column and, in the second slot, the placeholder \<^verbatim>\<open>object()\<close> that the slot was
  allocated with, which is neither a dense nor a sparse block. The slots are allocated by
  the block width and the loop assigns one slot per column.
\<close>

theorem transform_leaves_placeholder:
  "snd (fit init x_2x1) = None \<and>
   transform (fst (fit init x_2x1)) x_2x1 =
     Inr \<lparr>blocks = [[Ndarray [[Fin (- 1)], [Fin 1]], Object]],
          blocks_shape = (2, 2), shape = (2, 1), sparse = False\<rparr>"
  by (simp add: x_2x1_def scaler_ops array_ops eval_nat_numeral)

text \<open>
  Every slot that the loop assigns holds a block of the class of the input, and the flag
  of the result is the flag of the input.
\<close>

lemma transform_task_assigned_class:
  assumes tt: "transform_task [row] mb vb out = Inr out'"
    and row: "list_all (of_class sp) row"
    and mx: "merge_blocks [row] = Inr X"
    and i: "i < ncols (values_of X)"
  shows "of_class sp (out' ! i)"
proof -
  let ?cf = "if \<not> issparse X then Ndarray else Csr"
  let ?js = "py_range (ncols (values_of X)) 1"
  from tt obtain sx where
    asg: "assign_blocks ?cf sx 1 (zip [0..<0 + length ?js] ?js) out = Inr out'"
    by (auto simp: transform_task_def mx Let_def enumerate_eq_zip split: sum.splits if_splits)
  have "i < length ?js" using i by (simp add: py_range_length)
  with assign_blocks_Inr [OF asg]
  have "out' ! (0 + i) = ?cf (col_slice sx (?js ! i) (?js ! i + 1))" by blast
  moreover from merge_blocks_issparse [OF mx] row have "issparse X = sp"
    by (cases row) (auto dest: of_class_issparse)
  ultimately show ?thesis by (auto simp: of_class_def)
qed

lemma transform_assigned_class:
  assumes u: "uniform x" and t: "transform s x = Inr y"
    and k: "k < length (blocks x)"
    and mx: "merge_blocks [blocks x ! k] = Inr X"
    and i: "i < ncols (values_of X)"
  shows "sparse y = sparse x \<and> of_class (sparse x) (blocks y ! k ! i)"
proof -
  from t obtain m v where m: "mean_attr s = Some m" and v: "var_attr s = Some v"
    by (auto simp: transform_def split: option.splits)
  let ?T = "\<lambda>row. transform_task row (blocks m) (blocks v)
                    (replicate (snd (blocks_shape x)) Object)"
  from t obtain bs where seq: "sequence (map ?T (iterator_blocks 0 x)) = Inr bs"
    and y: "y = \<lparr>blocks = bs, blocks_shape = blocks_shape x, shape = shape x, sparse = sparse x\<rparr>"
    by (auto simp: transform_def m v Let_def split: sum.splits)
  have "map ?T (iterator_blocks 0 x) ! k = Inr (bs ! k)"
    using sequence_Inr_nth [OF seq, of k] k by (simp add: iterator_blocks_def)
  then have tk: "?T [blocks x ! k] = Inr (bs ! k)"
    using k by (simp add: iterator_blocks_def)
  have row: "list_all (of_class (sparse x)) (blocks x ! k)"
    using u k by (simp add: uniform_def list_all_length)
  from transform_task_assigned_class [OF tk row mx i] y show ?thesis by simp
qed

section \<open>Resample\<close>

lemma filter_range_split:
  "length (filter (\<lambda>i. a \<le> i \<and> i < a + n) idx) +
   length (filter (\<lambda>i. a + n \<le> i \<and> i < a + n + s) idx) =
   length (filter (\<lambda>i. a \<le> i \<and> i < a + n + (s::nat)) idx)"
  by (induction idx) auto

lemma ranges_count:
  "sum_list (map (\<lambda>(lo, hi). length (filter (\<lambda>i. lo \<le> i \<and> i < hi) idx)) (subset_ranges a ns)) =
     length (filter (\<lambda>i. a \<le> i \<and> i < a + sum_list ns) idx)"
proof (induction ns arbitrary: a)
  case Nil
  then show ?case by simp
next
  case (Cons n ns)
  show ?case
    using Cons.IH [of "a + n"] filter_range_split [of a n idx "sum_list ns"]
    by (simp add: add.assoc)
qed

lemma concat_drop_empty: "concat (filter (\<lambda>g. g \<noteq> []) gs) = concat gs"
  by (induction gs) auto


lemma source_groups_total:
  assumes "list_all (\<lambda>i. i < length (concat (subsets ds))) idx"
  shows "length (concat (source_groups ds idx)) = length idx"
proof -
  let ?sizes = "map length (subsets ds)"
  have total: "sum_list ?sizes = length (concat (subsets ds))"
    by (simp add: length_concat)
  have "length (concat (source_groups ds idx)) =
          sum_list (map (\<lambda>(lo, hi). length (filter (\<lambda>i. lo \<le> i \<and> i < hi) idx))
                        (subset_ranges 0 ?sizes))"
    by (simp add: source_groups_def concat_drop_empty length_concat comp_def split_def)
  also have "\<dots> = length (filter (\<lambda>i. 0 \<le> i \<and> i < 0 + sum_list ?sizes) idx)"
    by (rule ranges_count)
  also have "\<dots> = length idx"
    using assms by (simp add: total list_all_iff)
  finally show ?thesis .
qed




lemma length_concat_map_map: "length (concat (map (map f) gs)) = length (concat gs)"
  by (induction gs) auto






lemma test_dataset_sizes: "map length (subsets test_dataset) = replicate 10 100"
  by (simp add: test_dataset_def)

lemma test_dataset_rows: "length (concat (subsets test_dataset)) = 1000"
  by (simp add: test_dataset_def length_concat sum_list_replicate)

lemma subset_ranges_replicate:
  "subset_ranges a (replicate n s) = map (\<lambda>j. (a + s * j, a + s * j + s)) [0..<n]"
proof (induction n arbitrary: a)
  case 0
  then show ?case by simp
next
  case (Suc n)
  have "map (\<lambda>j. (a + s * j, a + s * j + s)) [0..<Suc n] =
          (a, a + s) # map (\<lambda>j. (a + s * j, a + s * j + s)) (map Suc [0..<n])"
    by (simp only: map_Suc_upt upt_conv_Cons [of 0 "Suc n"]) simp
  also have "\<dots> = (a, a + s) # map (\<lambda>j. (a + s + s * j, a + s + s * j + s)) [0..<n]"
    by (simp add: comp_def add.assoc)
  finally show ?case using Suc.IH [of "a + s"] by simp
qed

lemma spread_hits:
  assumes "j < 10"
  shows "filter (\<lambda>i. 0 + 100 * j \<le> i \<and> i < 0 + 100 * j + 100)
           (map (\<lambda>i. spread i mod 1000) [0..<500]) \<noteq> []"
proof -
  have "spread (50 * j) mod 1000 = 100 * j" using assms by (simp add: spread_def)
  moreover have "50 * j \<in> set [0..<500]" using assms by simp
  ultimately have "100 * j \<in> set (map (\<lambda>i. spread i mod 1000) [0..<500])"
    by (metis (no_types, lifting) image_eqI set_map)
  then show ?thesis by (auto simp: filter_empty_conv)
qed

lemma spread_groups:
  "length (filter (\<lambda>g. g \<noteq> [])
       (map (\<lambda>(lo, hi). filter (\<lambda>i. lo \<le> i \<and> i < hi) (map (\<lambda>i. spread i mod 1000) [0..<500]))
            (subset_ranges 0 (replicate 10 100)))) = 10"
proof -
  let ?G = "\<lambda>j. filter (\<lambda>i. 0 + 100 * j \<le> i \<and> i < 0 + 100 * j + 100)
                  (map (\<lambda>i. spread i mod 1000) [0..<500])"
  have "map (\<lambda>(lo, hi). filter (\<lambda>i. lo \<le> i \<and> i < hi) (map (\<lambda>i. spread i mod 1000) [0..<500]))
            (subset_ranges 0 (replicate 10 100)) = map ?G [0..<10]"
    unfolding subset_ranges_replicate by (simp add: comp_def)
  moreover have "filter (\<lambda>g. g \<noteq> []) (map ?G [0..<10]) = map ?G [0..<10]"
    unfolding filter_id_conv using spread_hits by auto
  ultimately show ?thesis by simp
qed


text \<open>
  Grouped by source subset, the same draw meets both assertions of \<^verbatim>\<open>test_resample\<close>.
\<close>

lemma source_grouping_meets_test:
  "test_resample_asserts (projr (resample spread test_dataset 500))"
proof -
  let ?idx = "map (\<lambda>i. spread i mod 1000) [0..<500]"
  let ?rows = "concat (subsets test_dataset)"
  have r: "resample spread test_dataset 500 =
             Inr (test_dataset\<lparr>subsets := map (map (\<lambda>i. ?rows ! i))
                                               (source_groups test_dataset ?idx)\<rparr>)"
    unfolding resample_def draw_indices_def Let_def test_dataset_rows by simp
  have n: "length (source_groups test_dataset ?idx) = 10"
    unfolding source_groups_def test_dataset_sizes by (rule spread_groups)
  have "list_all (\<lambda>i. i < length ?rows) ?idx"
    by (simp add: list_all_iff test_dataset_rows)
  then have "length (concat (source_groups test_dataset ?idx)) = length ?idx"
    by (rule source_groups_total)
  then have t: "length (concat (source_groups test_dataset ?idx)) = 500" by simp
  show ?thesis
    unfolding r by (simp add: test_resample_asserts_def length_concat_map_map n t)
qed

end
